theory Spec2Isabelle
  imports Main
begin

section \<open>Extraction of game records from a parsed wiki page\<close>

text \<open>
  The development embeds \<^verbatim>\<open>extract_games_from_html\<close> of \<^verbatim>\<open>src/main.py\<close>.
  The markup parser (BeautifulSoup over lxml or html.parser) is a library: the function
  is modelled from the parsed tree on, and the operations it uses on that tree
  (\<^verbatim>\<open>find_all\<close>, \<^verbatim>\<open>find\<close>, \<^verbatim>\<open>find_previous\<close>, \<^verbatim>\<open>get_text\<close>) are written out
  over a tree of tags and strings. Characters are code points below 256, on which
  Python's \<^verbatim>\<open>str.isspace\<close>, \<^verbatim>\<open>str.lower\<close> and the regular expression class
  \<^verbatim>\<open>\d\<close> are the functions given here.
\<close>

subsection \<open>Strings\<close>

definition isspace :: "char \<Rightarrow> bool" where
  "isspace c = (c \<in> set [CHR 0x09, CHR 0x0A, CHR 0x0B, CHR 0x0C, CHR 0x0D,
                          CHR 0x1C, CHR 0x1D, CHR 0x1E, CHR 0x1F, CHR 0x20,
                          CHR 0x85, CHR 0xA0])"

definition strip :: "string \<Rightarrow> string" where
  "strip s = rev (dropWhile isspace (rev (dropWhile isspace s)))"

definition lower_char :: "char \<Rightarrow> char" where
  "lower_char c =
     (let n = (of_char c :: nat)
      in if (65 \<le> n \<and> n \<le> 90) \<or> (192 \<le> n \<and> n \<le> 222 \<and> n \<noteq> 215)
         then char_of (n + 32) else c)"

definition lower :: "string \<Rightarrow> string" where
  "lower s = map lower_char s"

text \<open>\<^verbatim>\<open>sub in s\<close> on strings: \<open>sub\<close> occurs in \<open>s\<close> as a contiguous block.\<close>

fun str_in :: "string \<Rightarrow> string \<Rightarrow> bool" where
  "str_in sub [] = (sub = [])"
| "str_in sub (c # cs) = (take (length sub) (c # cs) = sub \<or> str_in sub cs)"

definition isdigit :: "char \<Rightarrow> bool" where
  "isdigit c = (c \<in> set ''0123456789'')"

definition digit_val :: "char \<Rightarrow> nat" where
  "digit_val c = of_char c - 48"

text \<open>
  \<^verbatim>\<open>re.search(r'19(\d{2})', s)\<close>: the leftmost position where \<^verbatim>\<open>19\<close> is followed
  by two digits; the result is group 1, the two digits, or \<open>None\<close> without a match.
\<close>

fun year_match :: "string \<Rightarrow> string option" where
  "year_match (a # b # c # d # rest) =
     (if a = CHR ''1'' \<and> b = CHR ''9'' \<and> isdigit c \<and> isdigit d then Some [c, d]
      else year_match (b # c # d # rest))"
| "year_match _ = None"

datatype py_error = IndexError | AttributeError | ValueError

text \<open>
  \<^verbatim>\<open>int(s)\<close> on a string of decimal digits; any other text is a \<^verbatim>\<open>ValueError\<close> here
  (the signs, blanks and underscores Python's \<^verbatim>\<open>int\<close> also reads never reach it: its
  only argument is group 1 of the match).
\<close>

definition int_str :: "string \<Rightarrow> py_error + int" where
  "int_str s =
     (if s \<noteq> [] \<and> list_all isdigit s
      then Inr (int (foldl (\<lambda>a c. 10 * a + digit_val c) 0 s))
      else Inl ValueError)"

text \<open>\<^verbatim>\<open>str(n)\<close> on an integer, as the f-string of the uniqueness key formats the year.\<close>

definition digit_char :: "nat \<Rightarrow> char" where
  "digit_char d = char_of (48 + d)"

function digits_of :: "nat \<Rightarrow> string" where
  "digits_of n = (if n < 10 then [digit_char n] else digits_of (n div 10) @ [digit_char (n mod 10)])"
  by pat_completeness auto
termination
  by (relation "measure id") auto

declare digits_of.simps [simp del]

definition str_int :: "int \<Rightarrow> string" where
  "str_int i = (if i < 0 then CHR ''-'' # digits_of (nat (- i)) else digits_of (nat i))"

text \<open>\<^verbatim>\<open>xs[i]\<close> with a non-negative index: out of range raises \<^verbatim>\<open>IndexError\<close>.\<close>

definition getitem :: "'a list \<Rightarrow> nat \<Rightarrow> py_error + 'a" where
  "getitem xs i = (if i < length xs then Inr (xs ! i) else Inl IndexError)"

subsection \<open>The parsed document\<close>

text \<open>
  A node of the tree is a string or a tag with a name and its children. Comments and
  the other strings that \<^verbatim>\<open>get_text\<close> leaves out are not part of the tree.
\<close>

datatype node = NavigableString string | Tag string "node list"

fun get_text :: "node \<Rightarrow> string" where
  "get_text (NavigableString s) = s"
| "get_text (Tag n cs) = concat (map get_text cs)"

text \<open>The nodes below a node, in document order (the node itself is not among them).\<close>

fun descendants :: "node \<Rightarrow> node list" where
  "descendants (NavigableString s) = []"
| "descendants (Tag n cs) = concat (map (\<lambda>c. c # descendants c) cs)"

fun has_name :: "string list \<Rightarrow> node \<Rightarrow> bool" where
  "has_name names (NavigableString s) = False"
| "has_name names (Tag n cs) = (n \<in> set names)"

definition find_all :: "string list \<Rightarrow> node \<Rightarrow> node list" where
  "find_all names e = filter (has_name names) (descendants e)"

definition find_tag :: "string list \<Rightarrow> node \<Rightarrow> node option" where
  "find_tag names e = (case find_all names e of [] \<Rightarrow> None | x # _ \<Rightarrow> Some x)"

text \<open>
  An element of the document is kept with its \<^verbatim>\<open>previous_elements\<close>: everything parsed
  before it, the nearest first. \<^verbatim>\<open>find_previous\<close> is the first of them with a name
  asked for.
\<close>

type_synonym element = "node list \<times> node"

fun with_previous :: "node list \<Rightarrow> node list \<Rightarrow> element list" where
  "with_previous prev [] = []"
| "with_previous prev (e # es) = (prev, e) # with_previous (e # prev) es"

definition find_previous :: "string list \<Rightarrow> element \<Rightarrow> node option" where
  "find_previous names el = find (has_name names) (fst el)"

subsection \<open>Records and the state of a run\<close>

record game =
  title :: string
  publisher :: string
  year :: int
  release_date :: string
  region :: string

record state =
  games :: "game list"
  seen_titles :: "string set"
  stdout :: "string list"

subsection \<open>The row loop\<close>

text \<open>The body of the \<^verbatim>\<open>try\<close> for one row; \<open>Inl\<close> is an exception raised in it.\<close>

definition try_row :: "int \<Rightarrow> int \<Rightarrow> string \<Rightarrow> state \<Rightarrow> node \<Rightarrow> py_error + state" where
  "try_row min_year max_year current_region st row =
     (let cells = find_all [''td'', ''th''] row in
      if 3 \<le> length cells then
        (case getitem cells 0 of Inl e \<Rightarrow> Inl e | Inr c0 \<Rightarrow>
         let title = strip (get_text c0) in
         if str_in ''(Unlicensed)'' title then Inr st
         else
          (case getitem cells 1 of Inl e \<Rightarrow> Inl e | Inr c1 \<Rightarrow>
           let publisher = strip (get_text c1) in
           (case getitem cells 2 of Inl e \<Rightarrow> Inl e | Inr c2 \<Rightarrow>
            let release_date = strip (get_text c2) in
            (case year_match release_date of None \<Rightarrow> Inr st | Some group1 \<Rightarrow>
             (case int_str group1 of Inl e \<Rightarrow> Inl e | Inr n \<Rightarrow>
              let year = n in
              if min_year \<le> year \<and> year \<le> max_year then
                let unique_key = title @ ''_'' @ str_int year @ ''_'' @ current_region in
                if unique_key \<notin> seen_titles st then
                  Inr (st\<lparr>seen_titles := insert unique_key (seen_titles st),
                          games := games st @
                            [\<lparr>title = title, publisher = publisher, year = year,
                              release_date = release_date, region = current_region\<rparr>]\<rparr>)
                else Inr st
              else Inr st)))))
      else Inr st)"

text \<open>
  \<^verbatim>\<open>except (IndexError, AttributeError, ValueError): continue\<close>: a row that raises
  one of them leaves the state as it was before the row.
\<close>

definition process_row :: "int \<Rightarrow> int \<Rightarrow> string \<Rightarrow> state \<Rightarrow> node \<Rightarrow> state" where
  "process_row min_year max_year current_region st row =
     (case try_row min_year max_year current_region st row of
        Inr st' \<Rightarrow> st'
      | Inl IndexError \<Rightarrow> st
      | Inl AttributeError \<Rightarrow> st
      | Inl ValueError \<Rightarrow> st)"

fun process_rows :: "int \<Rightarrow> int \<Rightarrow> string \<Rightarrow> state \<Rightarrow> node list \<Rightarrow> state" where
  "process_rows min_year max_year current_region st [] = st"
| "process_rows min_year max_year current_region st (row # rows) =
     process_rows min_year max_year current_region
       (process_row min_year max_year current_region st row) rows"

subsection \<open>The table loop\<close>

definition process_table :: "int \<Rightarrow> int \<Rightarrow> state \<Rightarrow> element \<Rightarrow> state" where
  "process_table min_year max_year st table =
     (case find_previous [''h2'', ''h3''] table of
        None \<Rightarrow> st
      | Some prev_heading \<Rightarrow>
          let region_text = lower (strip (get_text prev_heading)) in
          if \<not> str_in ''north america'' region_text then st
          else
            let current_region = ''North America'';
                st1 = st\<lparr>stdout := stdout st @ [''Processing region: '' @ current_region]\<rparr>
            in (case find_tag [''tr''] (snd table) of
                  None \<Rightarrow> st1
                | Some header_row \<Rightarrow>
                    let header_cells = find_all [''th'', ''td''] header_row;
                        header_texts = map (\<lambda>cell. lower (strip (get_text cell))) header_cells
                    in if \<not> (''title'' \<in> set header_texts \<or> ''game'' \<in> set header_texts) then st1
                       else process_rows min_year max_year current_region st1
                              (drop 1 (find_all [''tr''] (snd table)))))"

fun process_tables :: "int \<Rightarrow> int \<Rightarrow> state \<Rightarrow> element list \<Rightarrow> state" where
  "process_tables min_year max_year st [] = st"
| "process_tables min_year max_year st (table # tables) =
     process_tables min_year max_year (process_table min_year max_year st table) tables"

text \<open>
  The document is given by the top-level nodes the parser produced; \<open>out\<close> is what
  has been printed before the call. The result is the returned list and the output
  after the call.
\<close>

definition soup_elements :: "node list \<Rightarrow> element list" where
  "soup_elements html_content =
     (let soup = Tag ''[document]'' html_content
      in with_previous [soup] (descendants soup))"

definition extract_games_from_html ::
    "node list \<Rightarrow> int \<Rightarrow> int \<Rightarrow> string list \<Rightarrow> game list \<times> string list" where
  "extract_games_from_html html_content min_year max_year out =
     (let tables = filter (\<lambda>el. has_name [''table''] (snd el)) (soup_elements html_content);
          st = process_tables min_year max_year
                 \<lparr>games = [], seen_titles = {}, stdout = out\<rparr> tables
      in (games st, stdout st))"


text \<open>The call with the default bounds, \<^verbatim>\<open>min_year=85, max_year=95\<close>.\<close>

definition extract_games_default :: "node list \<Rightarrow> string list \<Rightarrow> game list \<times> string list" where
  "extract_games_default html_content out = extract_games_from_html html_content 85 95 out"

subsection \<open>The specification's reading of the extractor\<close>

text \<open>
  The definitions of this part follow the specification, not the code: the uniqueness
  key as a triple, the record a row describes (Record Extractor, steps 1 to 5), the
  tables the Table Classifier accepts, and the rule that the first occurrence wins.
  The theorems compare them with the functions above.
\<close>

definition triple :: "game \<Rightarrow> string \<times> int \<times> string" where
  "triple g = (title g, year g, region g)"

definition unique_key :: "game \<Rightarrow> string" where
  "unique_key g = title g @ ''_'' @ str_int (year g) @ ''_'' @ region g"

definition add_game :: "state \<Rightarrow> game \<Rightarrow> state" where
  "add_game st g =
     (if unique_key g \<notin> seen_titles st
      then st\<lparr>seen_titles := insert (unique_key g) (seen_titles st), games := games st @ [g]\<rparr>
      else st)"

definition row_record :: "int \<Rightarrow> int \<Rightarrow> string \<Rightarrow> node \<Rightarrow> game option" where
  "row_record min_year max_year reg row =
     (let cells = find_all [''td'', ''th''] row in
      if length cells < 3 then None
      else
        let t = strip (get_text (cells ! 0));
            p = strip (get_text (cells ! 1));
            d = strip (get_text (cells ! 2))
        in if str_in ''(Unlicensed)'' t then None
           else (case year_match d of
                   None \<Rightarrow> None
                 | Some ds \<Rightarrow>
                     let y = int (10 * digit_val (ds ! 0) + digit_val (ds ! 1))
                     in if min_year \<le> y \<and> y \<le> max_year
                        then Some \<lparr>title = t, publisher = p, year = y, release_date = d, region = reg\<rparr>
                        else None))"

definition north_america_heading :: "element \<Rightarrow> bool" where
  "north_america_heading table =
     (case find_previous [''h2'', ''h3''] table of
        None \<Rightarrow> False
      | Some h \<Rightarrow> str_in ''north america'' (lower (strip (get_text h))))"

definition title_column :: "element \<Rightarrow> bool" where
  "title_column table =
     (case find_tag [''tr''] (snd table) of
        None \<Rightarrow> False
      | Some header_row \<Rightarrow>
          let header_texts = map (\<lambda>cell. lower (strip (get_text cell)))
                               (find_all [''th'', ''td''] header_row)
          in ''title'' \<in> set header_texts \<or> ''game'' \<in> set header_texts)"

definition qualifies :: "element \<Rightarrow> bool" where
  "qualifies table = (north_america_heading table \<and> title_column table)"

definition data_rows :: "element \<Rightarrow> node list" where
  "data_rows table = drop 1 (find_all [''tr''] (snd table))"

definition table_records :: "int \<Rightarrow> int \<Rightarrow> element \<Rightarrow> game list" where
  "table_records min_year max_year table =
     (if qualifies table
      then List.map_filter (row_record min_year max_year ''North America'') (data_rows table)
      else [])"

text \<open>What a table prints: the region line, once its heading is accepted.\<close>

definition table_output :: "element \<Rightarrow> string list" where
  "table_output table =
     (if north_america_heading table then [''Processing region: North America''] else [])"

definition soup_tables :: "node list \<Rightarrow> element list" where
  "soup_tables html_content =
     filter (\<lambda>el. has_name [''table''] (snd el)) (soup_elements html_content)"

definition candidate_records :: "node list \<Rightarrow> int \<Rightarrow> int \<Rightarrow> game list" where
  "candidate_records html_content min_year max_year =
     concat (map (table_records min_year max_year) (soup_tables html_content))"

fun first_wins :: "game list \<Rightarrow> game list" where
  "first_wins [] = []"
| "first_wins (g # gs) = g # filter (\<lambda>h. triple h \<noteq> triple g) (first_wins gs)"

text \<open>The state of a run keeps the set of keys of the records emitted so far, all of one region.\<close>

definition run_inv :: "state \<Rightarrow> bool" where
  "run_inv st =
     (seen_titles st = unique_key ` set (games st) \<and>
      list_all (\<lambda>g. region g = ''North America'') (games st))"

subsection \<open>Example documents\<close>

text \<open>Small parsed pages, built the way the parser nests a heading and a table of rows.\<close>

definition text_tag :: "string \<Rightarrow> string \<Rightarrow> node" where
  "text_tag name s = Tag name [NavigableString s]"

definition table_row :: "string \<Rightarrow> string list \<Rightarrow> node" where
  "table_row cell_name texts = Tag ''tr'' (map (text_tag cell_name) texts)"

definition game_table :: "string list list \<Rightarrow> node" where
  "game_table rows =
     Tag ''table'' (table_row ''th'' [''Title'', ''Publisher'', ''Release Date'']
                    # map (table_row ''td'') rows)"

definition scenario_A :: "node list" where
  "scenario_A =
     [text_tag ''h2'' ''North America'',
      game_table [[''Super Mario Bros.'', ''Nintendo'', ''September 13, 1985''],
                  [''The Legend of Zelda'', ''Nintendo'', ''February 21, 1986'']]]"

definition scenario_D :: "node list" where
  "scenario_D =
     [text_tag ''h2'' ''North America'',
      game_table [[''Contra'', ''Konami'', ''February 1988''],
                  [''Contra'', ''KONAMI'', ''1988''],
                  [''Contra'', ''Konami'', ''1990'']]]"

definition scenario_E :: "node list" where
  "scenario_E =
     [text_tag ''h2'' ''Japan'',
      game_table [[''Super Mario Bros.'', ''Nintendo'', ''September 13, 1985'']]]"

definition scenario_rows :: "node list" where
  "scenario_rows =
     [text_tag ''h3'' '' List of North America releases '',
      game_table [[''Bad Game (Unlicensed)'', ''Acme'', ''1990''],
                  [''Two Cells'', ''Acme''],
                  [''No Date'', ''Acme'', ''Unknown''],
                  [''Too Late'', ''Acme'', ''June 1996''],
                  [''Metroid'', ''Nintendo'', ''August 1987'']]]"

definition scenario_h1 :: "node list" where
  "scenario_h1 =
     [text_tag ''h1'' ''North America'',
      game_table [[''Metroid'', ''Nintendo'', ''August 1987'']]]"

definition scenario_h4 :: "node list" where
  "scenario_h4 =
     [text_tag ''h2'' ''North America'',
      text_tag ''h4'' ''Japan'',
      game_table [[''Metroid'', ''Nintendo'', ''August 1987'']]]"

definition metroid :: game where
  "metroid = \<lparr>title = ''Metroid'', publisher = ''Nintendo'', year = 87,
               release_date = ''August 1987'', region = ''North America''\<rparr>"

section \<open>Facts about strings\<close>

lemma str_in_iff: "str_in sub s \<longleftrightarrow> (\<exists>pre post. s = pre @ sub @ post)"
proof (induction s)
  case Nil
  show ?case by auto
next
  case (Cons c cs)
  show ?case
  proof
    assume "str_in sub (c # cs)"
    then consider "take (length sub) (c # cs) = sub" | "str_in sub cs" by auto
    then show "\<exists>pre post. c # cs = pre @ sub @ post"
    proof cases
      case 1
      then have "c # cs = [] @ sub @ drop (length sub) (c # cs)"
        by (metis append_Nil append_take_drop_id)
      then show ?thesis by blast
    next
      case 2
      then obtain pre post where "cs = pre @ sub @ post" using Cons.IH by blast
      then have "c # cs = (c # pre) @ sub @ post" by simp
      then show ?thesis by blast
    qed
  next
    assume "\<exists>pre post. c # cs = pre @ sub @ post"
    then obtain pre post where eq: "c # cs = pre @ sub @ post" by blast
    show "str_in sub (c # cs)"
    proof (cases pre)
      case Nil
      with eq have "take (length sub) (c # cs) = sub" by simp
      then show ?thesis by simp
    next
      case (Cons p ps)
      with eq have "cs = ps @ sub @ post" by simp
      then have "str_in sub cs" using Cons.IH by blast
      then show ?thesis by simp
    qed
  qed
qed

lemma year_match_two_digits:
  "year_match s = Some g \<Longrightarrow> \<exists>c d. g = [c, d] \<and> isdigit c \<and> isdigit d"
  by (induction s rule: year_match.induct) (auto split: if_splits)

lemma year_match_SomeD:
  "year_match s = Some g \<Longrightarrow>
   \<exists>pre c d post. s = pre @ ''19'' @ [c, d] @ post \<and> isdigit c \<and> isdigit d \<and> g = [c, d] \<and>
     (\<forall>pre' c' d' post'. s = pre' @ ''19'' @ [c', d'] @ post' \<and> isdigit c' \<and> isdigit d'
         \<longrightarrow> length pre \<le> length pre')"
proof (induction s rule: year_match.induct)
  case (1 a b c d rest)
  show ?case
  proof (cases "a = CHR ''1'' \<and> b = CHR ''9'' \<and> isdigit c \<and> isdigit d")
    case True
    with 1 have g: "g = [c, d]" by simp
    have "a # b # c # d # rest = [] @ ''19'' @ [c, d] @ rest" using True by simp
    with True g show ?thesis by (metis list.size(3) le0)
  next
    case False
    with 1 have "year_match (b # c # d # rest) = Some g" by simp
    with 1 False obtain pre c0 d0 post where
      eq: "b # c # d # rest = pre @ ''19'' @ [c0, d0] @ post" and
      dg: "isdigit c0" "isdigit d0" "g = [c0, d0]" and
      mn: "\<forall>pre' c' d' post'. b # c # d # rest = pre' @ ''19'' @ [c', d'] @ post' \<and> isdigit c' \<and> isdigit d'
         \<longrightarrow> length pre \<le> length pre'"
      by blast
    have eq': "a # b # c # d # rest = (a # pre) @ ''19'' @ [c0, d0] @ post" using eq by simp
    have "length (a # pre) \<le> length pre'"
      if h: "a # b # c # d # rest = pre' @ ''19'' @ [c', d'] @ post'" "isdigit c'" "isdigit d'"
      for pre' c' d' post'
    proof (cases pre')
      case Nil
      with h False show ?thesis by simp
    next
      case (Cons p ps)
      with h have "b # c # d # rest = ps @ ''19'' @ [c', d'] @ post'" by simp
      with mn h have "length pre \<le> length ps" by blast
      with Cons show ?thesis by simp
    qed
    with eq' dg show ?thesis by blast
  qed
qed simp_all

lemma year_match_None_iff:
  "year_match s = None \<longleftrightarrow>
   \<not> (\<exists>pre c d post. s = pre @ ''19'' @ [c, d] @ post \<and> isdigit c \<and> isdigit d)"
proof
  assume n: "year_match s = None"
  show "\<not> (\<exists>pre c d post. s = pre @ ''19'' @ [c, d] @ post \<and> isdigit c \<and> isdigit d)"
  proof
    assume "\<exists>pre c d post. s = pre @ ''19'' @ [c, d] @ post \<and> isdigit c \<and> isdigit d"
    then obtain pre c d post where "s = pre @ ''19'' @ [c, d] @ post" "isdigit c" "isdigit d"
      by blast
    then have "year_match s \<noteq> None"
    proof (induction pre arbitrary: s)
      case Nil
      then show ?case by simp
    next
      case (Cons p ps)
      then have ih: "year_match (ps @ ''19'' @ [c, d] @ post) \<noteq> None" by blast
      obtain x y z w r where "ps @ ''19'' @ [c, d] @ post = x # y # z # w # r"
        by (cases ps; cases "tl ps"; cases "tl (tl ps)"; cases "tl (tl (tl ps))") auto
      with ih Cons.prems show ?case by auto
    qed
    with n show False by simp
  qed
next
  assume "\<not> (\<exists>pre c d post. s = pre @ ''19'' @ [c, d] @ post \<and> isdigit c \<and> isdigit d)"
  then show "year_match s = None"
    using year_match_SomeD [of s] by (cases "year_match s") blast+
qed

lemma int_str_two_digits:
  "isdigit c \<Longrightarrow> isdigit d \<Longrightarrow> int_str [c, d] = Inr (int (10 * digit_val c + digit_val d))"
  by (simp add: int_str_def)

lemma of_char_digit_char: "d < 10 \<Longrightarrow> (of_char (digit_char d) :: nat) = 48 + d"
proof -
  assume "d < 10"
  then have "(48 + d) mod 256 = 48 + d" by (intro mod_less) linarith
  then show ?thesis by (simp only: digit_char_def of_char_of)
qed

lemma digit_char_inj: "a < 10 \<Longrightarrow> b < 10 \<Longrightarrow> digit_char a = digit_char b \<Longrightarrow> a = b"
proof -
  assume a: "a < 10" and b: "b < 10" and eq: "digit_char a = digit_char b"
  from eq have "(of_char (digit_char a) :: nat) = of_char (digit_char b)" by (rule arg_cong)
  then have "48 + a = 48 + b" by (simp only: of_char_digit_char [OF a] of_char_digit_char [OF b])
  then show ?thesis by linarith
qed

lemma of_char_underscore: "(of_char CHR ''_'' :: nat) = 95"
  by simp

lemma of_char_minus: "(of_char CHR ''-'' :: nat) = 45"
  by simp

lemma digit_char_not_underscore: "d < 10 \<Longrightarrow> digit_char d \<noteq> CHR ''_''"
proof
  assume d: "d < 10" and eq: "digit_char d = CHR ''_''"
  from eq have "(of_char (digit_char d) :: nat) = of_char CHR ''_''" by (rule arg_cong)
  then have "48 + d = 95" by (simp only: of_char_digit_char [OF d] of_char_underscore)
  with d show False by linarith
qed

lemma digit_char_not_minus: "d < 10 \<Longrightarrow> digit_char d \<noteq> CHR ''-''"
proof
  assume d: "d < 10" and eq: "digit_char d = CHR ''-''"
  from eq have "(of_char (digit_char d) :: nat) = of_char CHR ''-''" by (rule arg_cong)
  then have "48 + d = 45" by (simp only: of_char_digit_char [OF d] of_char_minus)
  then show False by linarith
qed

lemma digits_of_nonempty: "digits_of n \<noteq> []"
  by (subst digits_of.simps) simp

lemma digits_of_chars: "c \<in> set (digits_of n) \<Longrightarrow> \<exists>d<10. c = digit_char d"
proof (induction n rule: digits_of.induct)
  case (1 n)
  show ?case
  proof (cases "n < 10")
    case True
    with 1 show ?thesis by (subst (asm) (2) digits_of.simps) auto
  next
    case False
    from "1.prems" False have "c \<in> set (digits_of (n div 10)) \<or> c = digit_char (n mod 10)"
      by (subst (asm) digits_of.simps) auto
    then show ?thesis
    proof
      assume "c \<in> set (digits_of (n div 10))"
      with 1 False show ?thesis by blast
    next
      assume "c = digit_char (n mod 10)"
      moreover have "n mod 10 < 10" by simp
      ultimately show ?thesis by blast
    qed
  qed
qed

lemma digits_of_inj: "digits_of a = digits_of b \<Longrightarrow> a = b"
proof (induction a arbitrary: b rule: digits_of.induct)
  case (1 a)
  show ?case
  proof (cases "a < 10")
    case a: True
    show ?thesis
    proof (cases "b < 10")
      case True
      with a "1.prems" show ?thesis
        by (simp add: digits_of.simps [of a] digits_of.simps [of b] digit_char_inj)
    next
      case False
      with a "1.prems" have "[digit_char a] = digits_of (b div 10) @ [digit_char (b mod 10)]"
        by (simp add: digits_of.simps [of a] digits_of.simps [of b])
      then show ?thesis using digits_of_nonempty [of "b div 10"] by simp
    qed
  next
    case a: False
    show ?thesis
    proof (cases "b < 10")
      case True
      with a "1.prems" have "digits_of (a div 10) @ [digit_char (a mod 10)] = [digit_char b]"
        by (simp add: digits_of.simps [of a] digits_of.simps [of b])
      then show ?thesis using digits_of_nonempty [of "a div 10"] by simp
    next
      case False
      with a "1.prems" have
        "digits_of (a div 10) @ [digit_char (a mod 10)] = digits_of (b div 10) @ [digit_char (b mod 10)]"
        by (simp add: digits_of.simps [of a] digits_of.simps [of b])
      then have e: "digits_of (a div 10) = digits_of (b div 10)"
        and d: "digit_char (a mod 10) = digit_char (b mod 10)" by simp_all
      from e a "1.IH" have "a div 10 = b div 10" by blast
      moreover from d have "a mod 10 = b mod 10" by (intro digit_char_inj) simp_all
      ultimately show ?thesis by (metis div_mult_mod_eq)
    qed
  qed
qed

lemma str_int_no_underscore: "CHR ''_'' \<notin> set (str_int i)"
proof
  assume "CHR ''_'' \<in> set (str_int i)"
  then have "CHR ''_'' \<in> set (digits_of (nat (- i))) \<or> CHR ''_'' \<in> set (digits_of (nat i))"
    by (auto simp: str_int_def split: if_splits)
  then obtain d where "d < 10" "CHR ''_'' = digit_char d"
    using digits_of_chars by metis
  then show False using digit_char_not_underscore [of d] by simp
qed

lemma str_int_inj: "str_int i = str_int j \<Longrightarrow> i = j"
proof -
  have neg: "CHR ''-'' # digits_of a \<noteq> digits_of b" for a b
  proof
    assume "CHR ''-'' # digits_of a = digits_of b"
    then have "CHR ''-'' \<in> set (digits_of b)" by (metis list.set_intros(1))
    then obtain d where "d < 10" "CHR ''-'' = digit_char d"
      using digits_of_chars by metis
    then show False using digit_char_not_minus [of d] by simp
  qed
  assume "str_int i = str_int j"
  then show ?thesis
    using neg [of "nat (- i)" "nat j"] neg [of "nat (- j)" "nat i"]
    by (auto simp: str_int_def split: if_splits dest!: digits_of_inj)
qed

lemma split_last_unique:
  assumes "xs @ c # ys = xs' @ c # ys'" "c \<notin> set ys" "c \<notin> set ys'"
  shows "xs = xs' \<and> ys = ys'"
proof -
  have a: "takeWhile (\<lambda>x. x \<noteq> c) (rev (xs @ c # ys)) = rev ys"
    using assms(2) by (auto simp: takeWhile_tail)
  have b: "takeWhile (\<lambda>x. x \<noteq> c) (rev (xs' @ c # ys')) = rev ys'"
    using assms(3) by (auto simp: takeWhile_tail)
  from a b assms(1) have "ys = ys'" by simp
  with assms(1) show ?thesis by simp
qed


section \<open>The uniqueness key and the run invariant\<close>

lemma unique_key_inj:
  assumes "region g = region h" "unique_key g = unique_key h"
  shows "triple g = triple h"
proof -
  from assms have "(title g @ ''_'' @ str_int (year g)) @ (''_'' @ region h)
      = (title h @ ''_'' @ str_int (year h)) @ (''_'' @ region h)"
    by (simp add: unique_key_def)
  then have "title g @ CHR ''_'' # str_int (year g) = title h @ CHR ''_'' # str_int (year h)"
    by (simp only: append_same_eq) simp
  then have "title g = title h \<and> str_int (year g) = str_int (year h)"
    by (rule split_last_unique) (rule str_int_no_underscore)+
  then have "title g = title h" and "year g = year h" by (auto dest: str_int_inj)
  with assms(1) show ?thesis by (simp add: triple_def)
qed

lemma triple_unique_key: "triple g = triple h \<Longrightarrow> unique_key g = unique_key h"
  by (simp add: triple_def unique_key_def)

lemma seen_iff_triple:
  assumes inv: "run_inv st" and reg: "region g = ''North America''"
  shows "unique_key g \<in> seen_titles st \<longleftrightarrow> triple g \<in> triple ` set (games st)"
proof
  from inv have seen: "seen_titles st = unique_key ` set (games st)"
    by (simp only: run_inv_def)
  assume "unique_key g \<in> seen_titles st"
  with seen obtain h where h: "h \<in> set (games st)" "unique_key g = unique_key h"
    by blast
  from inv h(1) have "region h = ''North America''"
    by (simp add: run_inv_def list_all_iff)
  with reg have "region g = region h" by (simp only:)
  then have "triple g = triple h" using h(2) by (rule unique_key_inj)
  with h(1) show "triple g \<in> triple ` set (games st)" by (rule rev_image_eqI)
next
  from inv have seen: "seen_titles st = unique_key ` set (games st)"
    by (simp only: run_inv_def)
  assume "triple g \<in> triple ` set (games st)"
  then obtain h where h: "h \<in> set (games st)" "triple g = triple h" by blast
  from h(2) have "unique_key g = unique_key h" by (rule triple_unique_key)
  with h(1) have "unique_key g \<in> unique_key ` set (games st)" by (rule rev_image_eqI)
  with seen show "unique_key g \<in> seen_titles st" by (simp only:)
qed

lemma run_inv_add_game:
  assumes inv: "run_inv st" and reg: "region g = ''North America''"
  shows "run_inv (add_game st g)"
proof (cases "unique_key g \<in> seen_titles st")
  case True
  then have "add_game st g = st" by (simp add: add_game_def)
  with inv show ?thesis by (simp only:)
next
  case False
  then have g: "games (add_game st g) = games st @ [g]"
    and s: "seen_titles (add_game st g) = insert (unique_key g) (seen_titles st)"
    by (simp_all add: add_game_def)
  from inv have seen: "seen_titles st = unique_key ` set (games st)"
    and regs: "list_all (\<lambda>g. region g = ''North America'') (games st)"
    by (simp_all only: run_inv_def)
  have "seen_titles (add_game st g) = unique_key ` set (games (add_game st g))"
    unfolding g s seen by simp
  moreover have "list_all (\<lambda>g. region g = ''North America'') (games (add_game st g))"
    unfolding g using regs reg by simp
  ultimately show ?thesis by (simp only: run_inv_def)
qed

lemma games_foldl_add_game:
  "run_inv st \<Longrightarrow> list_all (\<lambda>g. region g = ''North America'') gs \<Longrightarrow>
   games (foldl add_game st gs) =
     games st @ filter (\<lambda>g. triple g \<notin> triple ` set (games st)) (first_wins gs)"
proof (induction gs arbitrary: st)
  case Nil
  show ?case by simp
next
  case (Cons g gs)
  then have reg: "region g = ''North America''" and rest: "list_all (\<lambda>g. region g = ''North America'') gs"
    by simp_all
  have inv': "run_inv (add_game st g)" using Cons.prems(1) reg by (rule run_inv_add_game)
  note ih = Cons.IH [OF inv' rest]
  show ?case
  proof (cases "triple g \<in> triple ` set (games st)")
    case True
    then have "add_game st g = st"
      using seen_iff_triple [OF Cons.prems(1) reg] by (simp add: add_game_def)
    moreover have "filter (\<lambda>h. triple h \<notin> triple ` set (games st))
        (filter (\<lambda>h. triple h \<noteq> triple g) (first_wins gs))
      = filter (\<lambda>h. triple h \<notin> triple ` set (games st)) (first_wins gs)"
      unfolding filter_filter using True by (intro filter_cong refl) auto
    ultimately show ?thesis using ih True by simp
  next
    case False
    then have ag: "games (add_game st g) = games st @ [g]"
      using seen_iff_triple [OF Cons.prems(1) reg] by (simp add: add_game_def)
    have "filter (\<lambda>h. triple h \<notin> triple ` set (games st @ [g])) (first_wins gs)
      = filter (\<lambda>h. triple h \<notin> triple ` set (games st))
          (filter (\<lambda>h. triple h \<noteq> triple g) (first_wins gs))"
      unfolding filter_filter by (intro filter_cong refl) auto
    with ih ag False show ?thesis by simp
  qed
qed

lemma row_record_region: "row_record min_year max_year reg row = Some g \<Longrightarrow> region g = reg"
  by (auto simp: row_record_def Let_def split: if_splits option.splits)

lemma table_records_region:
  "list_all (\<lambda>g. region g = ''North America'') (table_records min_year max_year table)"
  by (auto simp: table_records_def list_all_iff map_filter_def dest: row_record_region)

lemma candidate_records_region:
  "list_all (\<lambda>g. region g = ''North America'') (candidate_records html_content min_year max_year)"
  using table_records_region by (auto simp: candidate_records_def list_all_iff)

lemma set_first_wins: "set (first_wins gs) \<subseteq> set gs"
  by (induction gs) auto

lemma distinct_first_wins: "distinct (map triple (first_wins gs))"
proof (induction gs)
  case Nil
  show ?case by simp
next
  case (Cons g gs)
  then have "distinct (map triple (filter (\<lambda>h. triple h \<noteq> triple g) (first_wins gs)))"
    by (rule distinct_map_filter)
  then show ?case by auto
qed

section \<open>The loops against the specification\<close>

lemma try_row_eq:
  "try_row min_year max_year reg st row =
     Inr (case row_record min_year max_year reg row of None \<Rightarrow> st | Some g \<Rightarrow> add_game st g)"
proof (cases "3 \<le> length (find_all [''td'', ''th''] row)")
  case False
  then show ?thesis by (simp add: try_row_def row_record_def)
next
  case len: True
  define cells where "cells = find_all [''td'', ''th''] row"
  have gi: "getitem cells 0 = Inr (cells ! 0)" "getitem cells 1 = Inr (cells ! 1)"
    "getitem cells 2 = Inr (cells ! 2)"
    using len by (auto simp: getitem_def cells_def)
  show ?thesis
  proof (cases "year_match (strip (get_text (cells ! 2)))")
    case None
    with len gi show ?thesis
      by (simp add: try_row_def row_record_def cells_def [symmetric] Let_def)
  next
    case (Some ds)
    then obtain c d where ds: "ds = [c, d]" "isdigit c" "isdigit d"
      using year_match_two_digits by blast
    then have "int_str ds = Inr (int (10 * digit_val (ds ! 0) + digit_val (ds ! 1)))"
      using int_str_two_digits by simp
    with len gi Some show ?thesis
      by (simp add: try_row_def row_record_def cells_def [symmetric] Let_def add_game_def unique_key_def)
  qed
qed

lemma process_row_eq:
  "process_row min_year max_year reg st row =
     (case row_record min_year max_year reg row of None \<Rightarrow> st | Some g \<Rightarrow> add_game st g)"
  by (simp add: process_row_def try_row_eq)

lemma process_rows_eq:
  "process_rows min_year max_year reg st rows =
     foldl add_game st (List.map_filter (row_record min_year max_year reg) rows)"
  by (induction rows arbitrary: st)
     (simp_all add: process_row_eq map_filter_simps split: option.splits)

lemma add_game_stdout: "add_game (st\<lparr>stdout := x\<rparr>) g = (add_game st g)\<lparr>stdout := x\<rparr>"
  by (simp add: add_game_def)

lemma foldl_add_game_stdout:
  "foldl add_game (st\<lparr>stdout := x\<rparr>) gs = (foldl add_game st gs)\<lparr>stdout := x\<rparr>"
  by (induction gs arbitrary: st) (simp_all add: add_game_stdout)

lemma stdout_add_game: "stdout (add_game st g) = stdout st"
  by (simp add: add_game_def)

lemma stdout_foldl_add_game: "stdout (foldl add_game st gs) = stdout st"
  by (induction gs arbitrary: st) (simp_all add: stdout_add_game)

lemma state_stdout_same: "st\<lparr>stdout := stdout st\<rparr> = (st :: state)"
  by simp

lemma process_table_eq:
  "process_table min_year max_year st table =
     (foldl add_game st (table_records min_year max_year table))
       \<lparr>stdout := stdout st @ table_output table\<rparr>"
proof (cases "north_america_heading table")
  case False
  then have "process_table min_year max_year st table = st"
    by (simp add: process_table_def north_america_heading_def split: option.splits)
  with False show ?thesis
    by (simp add: table_records_def qualifies_def table_output_def)
next
  case na: True
  then obtain h where h: "find_previous [''h2'', ''h3''] table = Some h"
    "str_in ''north america'' (lower (strip (get_text h)))"
    by (auto simp: north_america_heading_def split: option.splits)
  show ?thesis
  proof (cases "title_column table")
    case False
    have "process_table min_year max_year st table =
        st\<lparr>stdout := stdout st @ [''Processing region: North America'']\<rparr>"
    proof (cases "find_tag [''tr''] (snd table)")
      case None
      with h show ?thesis by (simp add: process_table_def Let_def)
    next
      case (Some header_row)
      with h False show ?thesis by (simp add: process_table_def title_column_def Let_def)
    qed
    with False na show ?thesis
      by (simp add: table_records_def qualifies_def table_output_def)
  next
    case True
    then obtain header_row where hr: "find_tag [''tr''] (snd table) = Some header_row"
      by (auto simp: title_column_def split: option.splits)
    with h True have "process_table min_year max_year st table =
        process_rows min_year max_year ''North America''
          (st\<lparr>stdout := stdout st @ [''Processing region: North America'']\<rparr>)
          (data_rows table)"
      by (auto simp: process_table_def title_column_def data_rows_def Let_def)
    with True na show ?thesis
      by (simp add: table_records_def qualifies_def table_output_def process_rows_eq
          foldl_add_game_stdout)
  qed
qed

lemma process_tables_eq:
  "process_tables min_year max_year st tables =
     (foldl add_game st (concat (map (table_records min_year max_year) tables)))
       \<lparr>stdout := stdout st @ concat (map table_output tables)\<rparr>"
proof (induction tables arbitrary: st)
  case Nil
  show ?case by simp
next
  case (Cons t ts)
  show ?case
    by (simp add: Cons.IH process_table_eq foldl_add_game_stdout stdout_foldl_add_game)
qed

lemma extract_games_eq:
  "fst (extract_games_from_html html_content min_year max_year out) =
     games (foldl add_game \<lparr>games = [], seen_titles = {}, stdout = out\<rparr>
              (candidate_records html_content min_year max_year))"
  by (simp add: extract_games_from_html_def Let_def process_tables_eq candidate_records_def
      soup_tables_def)

lemma extract_games_first_wins:
  "fst (extract_games_from_html html_content min_year max_year out) =
     first_wins (candidate_records html_content min_year max_year)"
proof -
  have "run_inv \<lparr>games = [], seen_titles = {}, stdout = out\<rparr>" by (simp add: run_inv_def)
  from games_foldl_add_game [OF this candidate_records_region]
  show ?thesis by (simp add: extract_games_eq)
qed

section \<open>What every emitted record satisfies\<close>

lemma process_row_skip:
  "row_record min_year max_year reg row = None \<Longrightarrow> process_row min_year max_year reg st row = st"
  by (simp add: process_row_eq)

lemma row_record_SomeD:
  assumes "row_record min_year max_year reg row = Some g"
  shows "\<exists>cells c d. cells = find_all [''td'', ''th''] row \<and> 3 \<le> length cells \<and>
           title g = strip (get_text (cells ! 0)) \<and>
           \<not> str_in ''(Unlicensed)'' (title g) \<and>
           publisher g = strip (get_text (cells ! 1)) \<and>
           release_date g = strip (get_text (cells ! 2)) \<and>
           year_match (release_date g) = Some [c, d] \<and>
           year g = int (10 * digit_val c + digit_val d) \<and>
           min_year \<le> year g \<and> year g \<le> max_year \<and> region g = reg"
proof -
  define cells where "cells = find_all [''td'', ''th''] row"
  from assms have len: "3 \<le> length cells"
    by (auto simp: row_record_def cells_def Let_def split: if_splits)
  from assms len have unl: "\<not> str_in ''(Unlicensed)'' (strip (get_text (cells ! 0)))"
    by (auto simp: row_record_def cells_def [symmetric] Let_def split: if_splits)
  from assms len unl obtain ds where ds: "year_match (strip (get_text (cells ! 2))) = Some ds"
    by (cases "year_match (strip (get_text (cells ! 2)))")
       (auto simp: row_record_def cells_def [symmetric] Let_def)
  then obtain c d where cd: "ds = [c, d]" using year_match_two_digits by blast
  from assms len unl ds cd have
    "min_year \<le> int (10 * digit_val c + digit_val d) \<and> int (10 * digit_val c + digit_val d) \<le> max_year"
    and "g = \<lparr>title = strip (get_text (cells ! 0)), publisher = strip (get_text (cells ! 1)),
               year = int (10 * digit_val c + digit_val d),
               release_date = strip (get_text (cells ! 2)), region = reg\<rparr>"
    by (auto simp: row_record_def cells_def [symmetric] Let_def split: if_splits)
  with len unl ds cd show ?thesis
    by (intro exI [of _ cells] exI [of _ c] exI [of _ d]) (simp add: cells_def)
qed

lemma candidate_recordsD:
  assumes "g \<in> set (candidate_records html_content min_year max_year)"
  shows "\<exists>row. row_record min_year max_year ''North America'' row = Some g"
proof -
  from assms obtain table where "g \<in> set (table_records min_year max_year table)"
    by (auto simp: candidate_records_def)
  then show ?thesis
    by (auto simp: table_records_def map_filter_def split: if_splits)
qed

lemma extract_gameD:
  assumes "g \<in> set (fst (extract_games_from_html html_content min_year max_year out))"
  shows "\<exists>row. row_record min_year max_year ''North America'' row = Some g"
proof -
  from assms have "g \<in> set (first_wins (candidate_records html_content min_year max_year))"
    by (simp only: extract_games_first_wins)
  then have "g \<in> set (candidate_records html_content min_year max_year)"
    using set_first_wins by blast
  then show ?thesis by (rule candidate_recordsD)
qed

section \<open>The claims\<close>

text \<open>
  C1. The list returned by \<open>extract_games_from_html\<close> has pairwise distinct
  (title, year, region) triples, and it is the list of the records of all rows that pass
  the filters, in the order met, from which every record whose triple occurred earlier is
  dropped: of several rows with one triple the first is emitted, with its publisher.
\<close>

theorem C1_dedup_first_wins:
  "distinct (map triple (fst (extract_games_from_html html_content min_year max_year out))) \<and>
   fst (extract_games_from_html html_content min_year max_year out) =
     first_wins (candidate_records html_content min_year max_year)"
  by (simp add: extract_games_first_wins distinct_first_wins)

theorem C1_dedup_first_wins_witness:
  "candidate_records scenario_D 85 95 =
     [\<lparr>title = ''Contra'', publisher = ''Konami'', year = 88,
        release_date = ''February 1988'', region = ''North America''\<rparr>,
      \<lparr>title = ''Contra'', publisher = ''KONAMI'', year = 88,
        release_date = ''1988'', region = ''North America''\<rparr>,
      \<lparr>title = ''Contra'', publisher = ''Konami'', year = 90,
        release_date = ''1990'', region = ''North America''\<rparr>] \<and>
   fst (extract_games_from_html scenario_D 85 95 []) =
     [\<lparr>title = ''Contra'', publisher = ''Konami'', year = 88,
        release_date = ''February 1988'', region = ''North America''\<rparr>,
      \<lparr>title = ''Contra'', publisher = ''Konami'', year = 90,
        release_date = ''1990'', region = ''North America''\<rparr>] \<and>
   distinct (map triple (fst (extract_games_from_html scenario_D 85 95 [])))"
proof -
  have cands: "candidate_records scenario_D 85 95 =
     [\<lparr>title = ''Contra'', publisher = ''Konami'', year = 88,
        release_date = ''February 1988'', region = ''North America''\<rparr>,
      \<lparr>title = ''Contra'', publisher = ''KONAMI'', year = 88,
        release_date = ''1988'', region = ''North America''\<rparr>,
      \<lparr>title = ''Contra'', publisher = ''Konami'', year = 90,
        release_date = ''1990'', region = ''North America''\<rparr>]"
    by code_simp
  note inst = C1_dedup_first_wins [of scenario_D 85 95 "[]"]
  from inst have eq: "fst (extract_games_from_html scenario_D 85 95 []) =
      first_wins (candidate_records scenario_D 85 95)" by (rule conjunct2)
  from inst have d: "distinct (map triple (fst (extract_games_from_html scenario_D 85 95 [])))"
    by (rule conjunct1)
  have "first_wins (candidate_records scenario_D 85 95) =
     [\<lparr>title = ''Contra'', publisher = ''Konami'', year = 88,
        release_date = ''February 1988'', region = ''North America''\<rparr>,
      \<lparr>title = ''Contra'', publisher = ''Konami'', year = 90,
        release_date = ''1990'', region = ''North America''\<rparr>]"
    unfolding cands by (simp add: triple_def)
  with eq cands d show ?thesis by (simp only: simp_thms)
qed

end
